theory Spec2Isabelle
  imports Complex_Main "HOL-Library.Word" "HOL-Library.Log_Nat"
begin

section \<open>Common values\<close>

text \<open>
  Python \<open>str\<close> values are modelled as \<open>string\<close>; a \<open>char\<close> is read as the code
  point of the same number (the Latin-1 range). Exceptions are values of \<open>py_error\<close>;
  every \<open>except Exception\<close> of the source is a case distinction on them.
\<close>

datatype py_error = PortAudioError | OSError | ReError | OtherError

section \<open>AudioRecorder (app.py, lines 158-249)\<close>

text \<open>
  A sample is a finite binary32 number, as \<open>numpy\<close> holds it: \<open>B32 m e\<close> is the number
  \<open>m * 2 ^ e\<close>; a binary32 number has a mantissa below \<open>2 ^ 24\<close> in absolute value and
  an exponent from -149 to 104. A block is what one callback delivers: the mono samples
  of \<open>indata\<close>.
\<close>

datatype binary32 = B32 int int

fun valof :: "binary32 \<Rightarrow> real" where
  "valof (B32 m e) =
     (if 0 \<le> e then real_of_int m * 2 ^ nat e else real_of_int m / 2 ^ nat (- e))"

fun is_binary32 :: "binary32 \<Rightarrow> bool" where
  "is_binary32 (B32 m e) = (\<bar>m\<bar> < 2 ^ 24 \<and> - 149 \<le> e \<and> e \<le> 104)"

type_synonym block = "binary32 list"

text \<open>A file path: the directory and the name in it (\<open>os.path.join\<close>).\<close>

type_synonym path = "string \<times> string"

datatype stream_state = Created | Started

text \<open>What \<open>sd.InputStream(...)\<close> followed by \<open>stream.start()\<close> does for a device.\<close>

datatype open_outcome = OpenRaises | StartRaises | Opened

record AudioRecorder =
  sample_rate :: nat
  channels :: nat
  is_recording :: bool
  frames :: "block list"
  stream :: "stream_state option"
  temp_file :: path
  current_level :: real

record wav_file =
  nchannels :: nat
  sampwidth :: nat
  framerate :: nat
  wav_data :: "8 word list"

definition init_recorder :: "path \<Rightarrow> AudioRecorder" where
  "init_recorder tmp =
     \<lparr>sample_rate = 16000, channels = 1, is_recording = False, frames = [],
      stream = None, temp_file = tmp, current_level = 0\<rparr>"

text \<open>
  \<open>_callback\<close>: \<open>np_rms\<close> is what \<open>float(np.sqrt(np.mean(indata ** 2)))\<close> evaluates to,
  an answer of \<open>numpy\<close>.
\<close>

definition callback :: "(block \<Rightarrow> real) \<Rightarrow> AudioRecorder \<Rightarrow> block \<Rightarrow> AudioRecorder" where
  "callback np_rms r indata =
     (if is_recording r
      then r\<lparr>frames := frames r @ [indata], current_level := np_rms indata\<rparr>
      else r)"

definition get_current_level :: "AudioRecorder \<Rightarrow> real" where
  "get_current_level r = current_level r"

text \<open>
  \<open>start\<close>: the flag is set before the stream is opened and cleared again in the
  \<open>except Exception\<close> branch; when \<open>InputStream\<close> was built and only \<open>start()\<close>
  raised, the attribute \<open>stream\<close> keeps the unstarted stream.
\<close>

definition start :: "AudioRecorder \<Rightarrow> open_outcome \<Rightarrow> AudioRecorder" where
  "start r dev =
     (if is_recording r then r
      else
        let r1 = r\<lparr>is_recording := True, frames := [], current_level := 0\<rparr>
        in case dev of
             Opened \<Rightarrow> r1\<lparr>stream := Some Started\<rparr>
           | StartRaises \<Rightarrow> r1\<lparr>stream := Some Created, is_recording := False\<rparr>
           | OpenRaises \<Rightarrow> r1\<lparr>is_recording := False\<rparr>)"

text \<open>
  \<open>audio * 32767\<close> multiplies each binary32 sample by the binary32 number 32767 and
  rounds the product to binary32: to 24 mantissa bits, to the nearest, a tie to the even
  mantissa. \<open>round_half_even m k\<close> is \<open>m / 2 ^ k\<close> rounded that way. The exponent of
  a rounded product is not below that of the sample, so the product of a binary32 number
  is a binary32 number again unless it exceeds the largest one; what the code stores for
  such a sample is not stated by any theorem below.
\<close>

definition round_half_even :: "int \<Rightarrow> nat \<Rightarrow> int" where
  "round_half_even m k =
     (let q = m div 2 ^ k; r = m mod 2 ^ k; h = 2 ^ (k - 1)
      in if r < h then q
         else if h < r then q + 1
         else if even q then q else q + 1)"

definition round24 :: "int \<Rightarrow> int \<Rightarrow> binary32" where
  "round24 m e =
     (let k = bitlen \<bar>m\<bar> - 24
      in if k \<le> 0 then B32 m e else B32 (round_half_even m (nat k)) (e + k))"

fun times_32767 :: "binary32 \<Rightarrow> binary32" where
  "times_32767 (B32 m e) = round24 (m * 32767) e"

text \<open>
  \<open>astype(np.int16)\<close> on a float array drops the fraction (rounds toward zero) and
  stores the low 16 bits of the integer; \<open>sint\<close> reads the stored sample.
  \<open>tobytes()\<close> lays each sample out low byte first.
\<close>

definition trunc_toward_zero :: "real \<Rightarrow> int" where
  "trunc_toward_zero x = (if 0 \<le> x then \<lfloor>x\<rfloor> else \<lceil>x\<rceil>)"

definition astype_int16 :: "real \<Rightarrow> 16 word" where
  "astype_int16 x = word_of_int (trunc_toward_zero x)"

definition audio_int16 :: "block list \<Rightarrow> 16 word list" where
  "audio_int16 fs = map (\<lambda>x. astype_int16 (valof (times_32767 x))) (concat fs)"

definition tobytes :: "16 word list \<Rightarrow> 8 word list" where
  "tobytes ws = concat (map (\<lambda>w. [ucast w, ucast (drop_bit 8 w)]) ws)"

text \<open>
  \<open>stop\<close> returns the recorder and what the call yields: \<open>None\<close>, the written file
  (the path is \<open>temp_file\<close>), or the exception of \<open>wave.open\<close>/\<open>writeframes\<close>, which
  \<open>stop\<close> does not catch. \<open>wave_ok\<close> says whether writing the file works.
\<close>

definition stop :: "AudioRecorder \<Rightarrow> bool \<Rightarrow> AudioRecorder \<times> (py_error + wav_file option)" where
  "stop r wave_ok =
     (if \<not> is_recording r then (r, Inr None)
      else
        let r1 = r\<lparr>is_recording := False, current_level := 0, stream := None\<rparr>
        in if frames r = [] then (r1, Inr None)
           else if \<not> wave_ok then (r1, Inl OSError)
           else (r1, Inr (Some \<lparr>nchannels = channels r, sampwidth = 2,
                                 framerate = sample_rate r,
                                 wav_data = tobytes (audio_int16 (frames r))\<rparr>)))"

section \<open>Configuration (the merged \<open>CFG\<close> dictionary)\<close>

text \<open>
  \<open>load_config\<close> merges the saved values over \<open>DEFAULT_CONFIG\<close>, so every key the
  pipeline reads is present: \<open>CFG\<close> is a record. A replacement rule is a dictionary read
  with \<open>rep.get(key, "")\<close>, so its keys may be absent.
\<close>

record rule =
  match :: "string option"
  replace :: "string option"
  ignore_case :: "bool option"

record config =
  language :: string
  silence_threshold_ms :: int
  auto_paste :: bool
  microphone :: string
  replacements :: "rule list"
  ai_enabled :: bool
  ai_api_key :: string
  ai_model :: string
  ai_prompt :: string
  recording_retention_days :: int
  save_recordings_path :: string

definition get_or :: "'a option \<Rightarrow> 'a \<Rightarrow> 'a" where
  "get_or v d = (case v of None \<Rightarrow> d | Some x \<Rightarrow> x)"

section \<open>The world outside the process\<close>

text \<open>
  \<open>files\<close> lists the files with their modification times, \<open>dirs\<close> the directories;
  \<open>pasted\<close> records each Ctrl+V: the window that had the focus and the clipboard it
  received; \<open>net_calls\<close> counts the chat-completion requests sent.
\<close>

record world =
  clipboard :: string
  foreground :: nat
  pasted :: "(nat \<times> string) list"
  files :: "(path \<times> real) list"
  dirs :: "string list"
  net_calls :: nat

datatype chat_outcome = ChatRaises | ChatNoChoices | ChatContent "string option"

datatype focus_outcome = FocusRaises | FocusDenied | FocusGranted

text \<open>
  \<open>re_lib\<close> is the regular-expression library on the patterns this theory does not
  interpret itself: ignore-case flag, pattern, replacement, text.
\<close>

type_synonym re_lib = "bool \<Rightarrow> string \<Rightarrow> string \<Rightarrow> string \<Rightarrow> py_error + string"

text \<open>What the libraries and the operating system answer during one call.\<close>

record environ =
  get_foreground_window :: "py_error + nat"
  query_devices :: "py_error + (string \<times> nat) list"
  device_open :: "nat option \<Rightarrow> open_outcome"
  np_rms :: "block \<Rightarrow> real"
  wave_ok :: bool
  load_model_raises :: bool
  whisper :: "string option \<Rightarrow> int \<Rightarrow> py_error + string list"
  re_library :: re_lib
  openai_raises :: bool
  chat :: "string \<Rightarrow> string \<Rightarrow> string \<Rightarrow> chat_outcome"
  clip_paste_raises :: bool
  clip_copy_raises :: bool
  set_foreground :: focus_outcome
  key_raises :: bool
  time_now :: real
  getmtime_raises :: "path \<Rightarrow> bool"
  remove_raises :: "path \<Rightarrow> bool"
  normcase :: "string \<Rightarrow> string"
  glob_library :: "string \<Rightarrow> (path \<times> real) list \<Rightarrow> path list"

section \<open>The application object (VoiceAssistantApp)\<close>

text \<open>
  \<open>running_jobs\<close> holds the audio file of every \<open>_transcribe\<close> thread that was started
  and has not finished.
\<close>

record App =
  app_is_recording :: bool
  prev_hwnd :: "nat option"
  recorder :: AudioRecorder
  transcriber :: bool
  openai_client :: "string option"
  running_jobs :: "path list"

subsection \<open>Starting and stopping (lines 1200-1241)\<close>

fun find_device :: "string \<Rightarrow> (string \<times> nat) list \<Rightarrow> nat \<Rightarrow> nat option" where
  "find_device name [] i = None"
| "find_device name (d # ds) i =
     (if fst d = name \<and> 0 < snd d then Some i else find_device name ds (Suc i))"

text \<open>
  \<open>get_device_index\<close>: the sentinel name of the default device is a Cyrillic literal in
  the source, outside \<open>char\<close>; it is the parameter \<open>default_name\<close>.
\<close>

definition get_device_index ::
  "string \<Rightarrow> (py_error + (string \<times> nat) list) \<Rightarrow> string \<Rightarrow> py_error + nat option" where
  "get_device_index default_name query name =
     (if name = [] \<or> name = default_name then Inr None
      else case query of
             Inl e \<Rightarrow> Inl e
           | Inr devices \<Rightarrow> Inr (find_device name devices 0))"

text \<open>
  \<open>_start_recording\<close>: the flag \<open>_is_recording\<close> is set first. An exception of
  \<open>get_device_index\<close> is caught by the \<open>try\<close> of \<open>_start_recording\<close>; an exception
  of the device is caught inside \<open>recorder.start\<close>, which returns normally.
\<close>

definition start_recording :: "string \<Rightarrow> config \<Rightarrow> environ \<Rightarrow> App \<Rightarrow> App" where
  "start_recording default_name cfg env a =
     (let a1 = a\<lparr>app_is_recording := True\<rparr>;
          a2 = a1\<lparr>prev_hwnd := (case get_foreground_window env of
                                   Inl e \<Rightarrow> None | Inr h \<Rightarrow> Some h)\<rparr>
      in case get_device_index default_name (query_devices env) (microphone cfg) of
           Inl e \<Rightarrow> a2
         | Inr device_idx \<Rightarrow>
             a2\<lparr>recorder := start (recorder a2) (device_open env device_idx)\<rparr>)"

definition write_file :: "path \<Rightarrow> real \<Rightarrow> (path \<times> real) list \<Rightarrow> (path \<times> real) list" where
  "write_file p t fs = (p, t) # filter (\<lambda>e. fst e \<noteq> p) fs"

text \<open>
  \<open>_stop_recording\<close>: when \<open>recorder.stop()\<close> returned a path, a new thread running
  \<open>_transcribe\<close> is started at once, whatever threads are still running.
\<close>

definition stop_recording :: "environ \<Rightarrow> App \<times> world \<Rightarrow> App \<times> world" where
  "stop_recording env s =
     (let a = fst s; w = snd s;
          a1 = a\<lparr>app_is_recording := False\<rparr>;
          res = stop (recorder a1) (wave_ok env);
          a2 = a1\<lparr>recorder := fst res\<rparr>
      in case snd res of
           Inl e \<Rightarrow> (a2, w)
         | Inr None \<Rightarrow> (a2, w)
         | Inr (Some wav) \<Rightarrow>
             let audio_file = temp_file (recorder a);
                 w1 = w\<lparr>files := write_file audio_file (time_now env) (files w)\<rparr>
             in if fst audio_file = [] \<and> snd audio_file = [] then (a2, w1)
                else (a2\<lparr>running_jobs := running_jobs a2 @ [audio_file]\<rparr>, w1))"

definition toggle_recording ::
  "string \<Rightarrow> config \<Rightarrow> environ \<Rightarrow> App \<times> world \<Rightarrow> App \<times> world" where
  "toggle_recording default_name cfg env s =
     (if app_is_recording (fst s) then stop_recording env s
      else (start_recording default_name cfg env (fst s), snd s))"

text \<open>The audio thread delivering one block to the recorder of the application.\<close>

definition audio_block :: "environ \<Rightarrow> block \<Rightarrow> App \<times> world \<Rightarrow> App \<times> world" where
  "audio_block env indata s =
     ((fst s)\<lparr>recorder := callback (np_rms env) (recorder (fst s)) indata\<rparr>, snd s)"

subsection \<open>Text of the transcript (lines 1262 and 1274-1281)\<close>

definition isspace :: "char \<Rightarrow> bool" where
  "isspace c =
     (let n = (of_char c :: nat)
      in (9 \<le> n \<and> n \<le> 13) \<or> (28 \<le> n \<and> n \<le> 32) \<or> n = 133 \<or> n = 160)"

definition strip :: "string \<Rightarrow> string" where
  "strip s = rev (dropWhile isspace (rev (dropWhile isspace s)))"

fun join :: "string \<Rightarrow> string list \<Rightarrow> string" where
  "join sep [] = []"
| "join sep [x] = x"
| "join sep (x # y # ys) = x @ sep @ join sep (y # ys)"

text \<open>
  The lower-case mapping by which \<open>re.IGNORECASE\<close> compares two ASCII characters: the
  letters A to Z move up by 32.
\<close>

definition is_ascii :: "string \<Rightarrow> bool" where
  "is_ascii s = list_all (\<lambda>c. (of_char c :: nat) < 128) s"

definition lower :: "char \<Rightarrow> char" where
  "lower c =
     (let n = (of_char c :: nat)
      in if 65 \<le> n \<and> n \<le> 90 then char_of (n + 32) else c)"

text \<open>
  The characters with a meaning in a pattern, and the backslash, the one character with
  a meaning in a replacement template.
\<close>

definition backslash :: char where
  "backslash = CHR 0x5C"

definition special_chars :: "char list" where
  "special_chars = backslash # ''.^$*+?{}[]|()''"

definition is_literal :: "string \<Rightarrow> bool" where
  "is_literal p = list_all (\<lambda>c. c \<notin> set special_chars) p"

fun prefix_match :: "bool \<Rightarrow> string \<Rightarrow> string \<Rightarrow> bool" where
  "prefix_match ic [] t = True"
| "prefix_match ic (p # ps) [] = False"
| "prefix_match ic (p # ps) (c # cs) =
     ((if ic then lower p = lower c else p = c) \<and> prefix_match ic ps cs)"

text \<open>
  \<open>re.sub\<close> for a pattern without special characters: scanning from the left, every
  occurrence of the pattern that does not overlap an earlier one is replaced.
\<close>

function sub_literal :: "bool \<Rightarrow> string \<Rightarrow> string \<Rightarrow> string \<Rightarrow> string" where
  "sub_literal ic p r [] = []"
| "sub_literal ic p r (c # cs) =
     (if p \<noteq> [] \<and> prefix_match ic p (c # cs)
      then r @ sub_literal ic p r (drop (length p) (c # cs))
      else c # sub_literal ic p r cs)"
  by pat_completeness auto
termination
  by (relation "measure (\<lambda>(ic, p, r, t). length t)") auto

text \<open>
  \<open>re.sub(pattern, repl, text, flags)\<close>. A non-empty ASCII pattern of ordinary characters
  on an ASCII text, with a replacement free of backslashes, is interpreted here; every
  other call (a pattern with special characters, such as a group that switches the flag
  off, or a character outside ASCII) is answered by the library.
\<close>

definition re_sub :: "re_lib \<Rightarrow> string \<Rightarrow> string \<Rightarrow> string \<Rightarrow> bool \<Rightarrow> py_error + string" where
  "re_sub lib pattern repl text ic =
     (if pattern \<noteq> [] \<and> is_literal pattern \<and> is_ascii pattern \<and> is_ascii text \<and>
         backslash \<notin> set repl
      then Inr (sub_literal ic pattern repl text)
      else lib ic pattern repl text)"

text \<open>
  The replacement loop: \<open>flags=re.IGNORECASE\<close> on every rule; \<open>re.error\<close> is the one
  exception the loop catches.
\<close>

fun apply_replacements :: "re_lib \<Rightarrow> rule list \<Rightarrow> string \<Rightarrow> py_error + string" where
  "apply_replacements lib [] text = Inr text"
| "apply_replacements lib (rep # reps) text =
     (let m = get_or (match rep) []; rp = get_or (replace rep) []
      in if m \<noteq> []
         then (case re_sub lib m rp text True of
                 Inr text' \<Rightarrow> apply_replacements lib reps text'
               | Inl ReError \<Rightarrow> apply_replacements lib reps text
               | Inl e \<Rightarrow> Inl e)
         else apply_replacements lib reps text)"

subsection \<open>GPT post-processing (lines 1283-1316)\<close>

text \<open>
  The request is sent once the client exists; building the client may raise. Every
  exception of the block is caught by its \<open>except Exception\<close>; a response without
  choices or with no content raises inside the block. The cached client is kept
  whatever key it was built with.
\<close>

definition chat_request :: "config \<Rightarrow> environ \<Rightarrow> App \<Rightarrow> world \<Rightarrow> string \<Rightarrow> App \<times> world \<times> string" where
  "chat_request cfg env a w text =
     (let w1 = w\<lparr>net_calls := Suc (net_calls w)\<rparr>
      in case chat env (ai_model cfg) (ai_prompt cfg) text of
           ChatRaises \<Rightarrow> (a, w1, text)
         | ChatNoChoices \<Rightarrow> (a, w1, text)
         | ChatContent None \<Rightarrow> (a, w1, text)
         | ChatContent (Some content) \<Rightarrow>
             (let polished = strip content
              in if polished \<noteq> [] then (a, w1, polished) else (a, w1, text)))"

definition gpt_post_processing ::
  "config \<Rightarrow> environ \<Rightarrow> App \<Rightarrow> world \<Rightarrow> string \<Rightarrow> App \<times> world \<times> string" where
  "gpt_post_processing cfg env a w text =
     (let api_key = strip (ai_api_key cfg)
      in if text \<noteq> [] \<and> api_key \<noteq> [] \<and> ai_enabled cfg
         then (case openai_client a of
                 None \<Rightarrow>
                   if openai_raises env then (a, w, text)
                   else chat_request cfg env (a\<lparr>openai_client := Some api_key\<rparr>) w text
               | Some client \<Rightarrow> chat_request cfg env a w text)
         else (a, w, text))"

subsection \<open>Pasting (lines 1320-1350)\<close>

text \<open>
  The previous clipboard is read into \<open>old_clip\<close> and not used again: the line that
  would copy it back is commented out in the source. The focus block has its own
  \<open>except\<close>; an exception of \<open>pyperclip\<close> or of the key press leaves the block with
  the world as it is at that point.
\<close>

definition paste_result ::
  "config \<Rightarrow> environ \<Rightarrow> App \<Rightarrow> world \<Rightarrow> string \<Rightarrow> world \<times> py_error option" where
  "paste_result cfg env a w text =
     (if text \<noteq> [] \<and> auto_paste cfg
      then
        if clip_paste_raises env then (w, Some OtherError)
        else
          let old_clip = clipboard w
          in if clip_copy_raises env then (w, Some OtherError)
             else
               let w1 = w\<lparr>clipboard := text\<rparr>;
                   w2 = (case prev_hwnd a of
                           None \<Rightarrow> w1
                         | Some hwnd \<Rightarrow>
                             if hwnd \<noteq> 0 \<and> set_foreground env = FocusGranted
                             then w1\<lparr>foreground := hwnd\<rparr> else w1)
               in if key_raises env then (w2, Some OtherError)
                  else (w2\<lparr>pasted := pasted w2 @ [(foreground w2, clipboard w2)]\<rparr>, None)
      else (w, None))"

subsection \<open>Retention (lines 1119-1150)\<close>

text \<open>
  \<open>glob.glob(os.path.join(rec_path, "*.wav"))\<close>. When \<open>rec_path\<close> has none of the
  characters \<open>*\<close>, \<open>?\<close>, \<open>[\<close> (\<open>glob.has_magic\<close>), the result is the names of that
  directory that do not start with a dot and end in \<open>.wav\<close> after \<open>os.path.normcase\<close>.
  Otherwise \<open>glob\<close> reads \<open>rec_path\<close> itself as a pattern for directories; that listing
  is an answer of the library.
\<close>

definition has_magic :: "string \<Rightarrow> bool" where
  "has_magic s = list_ex (\<lambda>c. c \<in> set ''*?['') s"

definition fnmatch_wav :: "(string \<Rightarrow> string) \<Rightarrow> string \<Rightarrow> bool" where
  "fnmatch_wav nc name =
     (name \<noteq> [] \<and> hd name \<noteq> CHR ''.'' \<and> 4 \<le> length (nc name) \<and>
      drop (length (nc name) - 4) (nc name) = nc ''.wav'')"

definition glob_wav :: "environ \<Rightarrow> string \<Rightarrow> (path \<times> real) list \<Rightarrow> path list" where
  "glob_wav env rec_path fs =
     (if has_magic rec_path then glob_library env rec_path fs
      else remdups (filter (\<lambda>p. fst p = rec_path \<and> fnmatch_wav (normcase env) (snd p))
                      (map fst fs)))"

definition getmtime :: "(path \<times> real) list \<Rightarrow> path \<Rightarrow> real option" where
  "getmtime fs p = map_of fs p"

definition os_remove :: "path \<Rightarrow> (path \<times> real) list \<Rightarrow> (path \<times> real) list" where
  "os_remove p fs = filter (\<lambda>e. fst e \<noteq> p) fs"

text \<open>The body of the loop of \<open>_cleanup_old_recordings\<close> with its \<open>except Exception: pass\<close>.\<close>

fun sweep :: "environ \<Rightarrow> real \<Rightarrow> path list \<Rightarrow> (path \<times> real) list \<Rightarrow> (path \<times> real) list" where
  "sweep env cutoff [] fs = fs"
| "sweep env cutoff (f # rest) fs =
     (if getmtime_raises env f then sweep env cutoff rest fs
      else case getmtime fs f of
             None \<Rightarrow> sweep env cutoff rest fs
           | Some m \<Rightarrow>
               if m < cutoff
               then (if remove_raises env f then sweep env cutoff rest fs
                     else sweep env cutoff rest (os_remove f fs))
               else sweep env cutoff rest fs)"

definition cleanup_old_recordings :: "config \<Rightarrow> environ \<Rightarrow> world \<Rightarrow> world" where
  "cleanup_old_recordings cfg env w =
     (let days = recording_retention_days cfg
      in if days \<le> 0 then w
         else
           let rec_path = save_recordings_path cfg
           in if rec_path = [] \<or> rec_path \<notin> set (dirs w) then w
              else
                let cutoff = time_now env - real_of_int days * 86400
                in w\<lparr>files := sweep env cutoff (glob_wav env rec_path (files w)) (files w)\<rparr>)"

definition cleanup_audio_file :: "config \<Rightarrow> environ \<Rightarrow> world \<Rightarrow> path \<Rightarrow> world" where
  "cleanup_audio_file cfg env w file_path =
     (let retention_days = recording_retention_days cfg
      in if retention_days \<le> 0
         then (if remove_raises env file_path then w
               else w\<lparr>files := os_remove file_path (files w)\<rparr>)
         else cleanup_old_recordings cfg env w)"

subsection \<open>The pipeline job (\<open>_transcribe\<close>, lines 1243-1358)\<close>

text \<open>
  The body of the \<open>try\<close>: any exception leaves it with the state reached so far; the
  \<open>finally\<close> clause then cleans up.
\<close>

definition transcribe_body :: "config \<Rightarrow> environ \<Rightarrow> App \<times> world \<Rightarrow> path \<Rightarrow> App \<times> world" where
  "transcribe_body cfg env s audio_file =
     (let a = fst s; w = snd s
      in if \<not> transcriber a \<and> load_model_raises env then (a, w)
         else
           let a1 = a\<lparr>transcriber := True\<rparr>;
               lang = language cfg;
               whisper_lang = (if lang = ''auto'' then None else Some lang)
           in case whisper env whisper_lang (silence_threshold_ms cfg) of
                Inl e \<Rightarrow> (a1, w)
              | Inr segments \<Rightarrow>
                  let text = strip (join '' '' segments)
                  in if text = [] then (a1, w)
                     else case apply_replacements (re_library env) (replacements cfg) text of
                            Inl e \<Rightarrow> (a1, w)
                          | Inr text1 \<Rightarrow>
                              let r = gpt_post_processing cfg env a1 w text1;
                                  a2 = fst r; w2 = fst (snd r); text2 = snd (snd r)
                              in (a2, fst (paste_result cfg env a2 w2 text2)))"

definition transcribe :: "config \<Rightarrow> environ \<Rightarrow> App \<times> world \<Rightarrow> path \<Rightarrow> App \<times> world" where
  "transcribe cfg env s audio_file =
     (let s1 = transcribe_body cfg env s audio_file
      in (fst s1, cleanup_audio_file cfg env (snd s1) audio_file))"

subsection \<open>Events\<close>

text \<open>
  What can happen to the running application: the hotkey toggles, the audio thread
  delivers a block, a started \<open>_transcribe\<close> thread runs to its end.
\<close>

datatype event = Toggle | Block block | JobEnds path

definition job_ends :: "config \<Rightarrow> environ \<Rightarrow> path \<Rightarrow> App \<times> world \<Rightarrow> App \<times> world" where
  "job_ends cfg env p s =
     (if p \<in> set (running_jobs (fst s))
      then (let s1 = transcribe cfg env s p
            in ((fst s1)\<lparr>running_jobs := remove1 p (running_jobs (fst s1))\<rparr>, snd s1))
      else s)"

fun step :: "string \<Rightarrow> config \<Rightarrow> environ \<Rightarrow> event \<Rightarrow> App \<times> world \<Rightarrow> App \<times> world" where
  "step dn cfg env Toggle s = toggle_recording dn cfg env s"
| "step dn cfg env (Block b) s = audio_block env b s"
| "step dn cfg env (JobEnds p) s = job_ends cfg env p s"

fun run :: "string \<Rightarrow> config \<Rightarrow> environ \<Rightarrow> event list \<Rightarrow> App \<times> world \<Rightarrow> App \<times> world" where
  "run dn cfg env [] s = s"
| "run dn cfg env (e # es) s = run dn cfg env es (step dn cfg env e s)"

definition init_app :: "path \<Rightarrow> App" where
  "init_app tmp =
     \<lparr>app_is_recording = False, prev_hwnd = None, recorder = init_recorder tmp,
      transcriber = False, openai_client = None, running_jobs = []\<rparr>"

subsection \<open>A concrete configuration, environment and world\<close>

text \<open>
  The values of \<open>DEFAULT_CONFIG\<close> that the pipeline reads (an empty microphone name
  selects the default device, as the sentinel does), with an API key set; an environment
  in which every library call succeeds; a world with four files in the recordings
  directory and the working file of the recorder.
\<close>

definition example_cfg :: config where
  "example_cfg =
     \<lparr>language = ''auto'', silence_threshold_ms = 500, auto_paste = True,
      microphone = [], replacements = [], ai_enabled = True, ai_api_key = ''sk-1'',
      ai_model = ''gpt-4o-mini'', ai_prompt = ''Fix the text.'',
      recording_retention_days = 0, save_recordings_path = ''rec''\<rparr>"

definition example_env :: environ where
  "example_env =
     \<lparr>get_foreground_window = Inr 42, query_devices = Inr [(''Mic'', 2)],
      device_open = (\<lambda>d. Opened),
      np_rms = (\<lambda>b. case b of [] \<Rightarrow> 0 | x # xs \<Rightarrow> \<bar>valof x\<bar>),
      wave_ok = True, load_model_raises = False,
      whisper = (\<lambda>l t. Inr [''hello'']), re_library = (\<lambda>ic p r t. Inl ReError),
      openai_raises = False, chat = (\<lambda>m p t. ChatContent (Some ''Hello.'')),
      clip_paste_raises = False, clip_copy_raises = False, set_foreground = FocusGranted,
      key_raises = False, time_now = 1000000, getmtime_raises = (\<lambda>p. False),
      remove_raises = (\<lambda>p. False), normcase = map lower,
      glob_library = (\<lambda>d fs. [])\<rparr>"

definition example_world :: world where
  "example_world =
     \<lparr>clipboard = ''old'', foreground = 7, pasted = [],
      files = [((''rec'', ''a.wav''), 100), ((''rec'', ''b.wav''), 999000),
               ((''rec'', ''notes.txt''), 100), ((''rec'', ''c.wav''), 395200),
               ((''tmp'', ''voice_assistant_temp.wav''), 999990)],
      dirs = [''rec'', ''tmp''], net_calls = 0\<rparr>"

definition example_tmp :: path where
  "example_tmp = (''tmp'', ''voice_assistant_temp.wav'')"


section \<open>Sample conversion\<close>

lemma round_half_even_lower: "m div 2 ^ k \<le> round_half_even m k"
  by (simp add: round_half_even_def Let_def)

lemma round_half_even_upper: "round_half_even m k \<le> m div 2 ^ k + 1"
  by (simp add: round_half_even_def Let_def)

lemma round_half_even_le:
  assumes "m \<le> B * 2 ^ k"
  shows "round_half_even m k \<le> B"
proof -
  have q: "m div 2 ^ k \<le> B"
  proof -
    have "m div 2 ^ k \<le> (B * 2 ^ k) div 2 ^ k"
      using assms by (intro zdiv_mono1) simp_all
    then show ?thesis by simp
  qed
  show ?thesis
  proof (cases "m div 2 ^ k = B")
    case False
    with q have "m div 2 ^ k + 1 \<le> B" by simp
    with round_half_even_upper [of m k] show ?thesis by linarith
  next
    case True
    have "(m div 2 ^ k) * 2 ^ k + m mod 2 ^ k = m" by (rule div_mult_mod_eq)
    then have "B * 2 ^ k + m mod 2 ^ k = m" by (simp only: True)
    with assms have "m mod 2 ^ k \<le> 0" by linarith
    moreover have "0 \<le> m mod (2 ^ k :: int)" by simp
    ultimately have "m mod 2 ^ k = 0" by linarith
    then show ?thesis
      using True by (simp add: round_half_even_def Let_def)
  qed
qed

lemma round_half_even_ge:
  assumes "B * 2 ^ k \<le> m"
  shows "B \<le> round_half_even m k"
proof -
  have "(B * 2 ^ k) div 2 ^ k \<le> m div 2 ^ k"
    using assms by (intro zdiv_mono1) simp_all
  then have "B \<le> m div 2 ^ k" by simp
  with round_half_even_lower [of m k] show ?thesis by linarith
qed

lemma valof_scaled: "valof (B32 (m * c) e) = real_of_int c * valof (B32 m e)"
  by simp

lemma times_32767_bound:
  assumes "\<bar>valof x\<bar> \<le> 1"
  shows "\<bar>valof (times_32767 x)\<bar> \<le> 32767"
proof -
  obtain m e where x: "x = B32 m e" by (cases x)
  define M where "M = m * 32767"
  define k where "k = bitlen \<bar>M\<bar> - 24"
  show ?thesis
  proof (cases "k \<le> 0")
    case True
    then have "times_32767 x = B32 (m * 32767) e"
      by (simp add: x round24_def k_def M_def)
    then have "valof (times_32767 x) = 32767 * valof x"
      using valof_scaled [of m 32767 e] by (simp add: x)
    then show ?thesis using assms by (simp add: abs_mult)
  next
    case False
    then have kpos: "0 < k" by simp
    then have "0 < bitlen \<bar>M\<bar>" by (simp add: k_def)
    then have Mpos: "0 < \<bar>M\<bar>" by (metis bitlen_eq_zero_iff less_le_not_le linorder_not_le)
    have "2 ^ nat (bitlen \<bar>M\<bar> - 1) \<le> \<bar>M\<bar>"
      using bitlen_bounds [OF Mpos] by simp
    moreover have "(2::int) ^ 24 \<le> 2 ^ nat (bitlen \<bar>M\<bar> - 1)"
      using kpos by (intro power_increasing) (simp_all add: k_def)
    ultimately have big: "2 ^ 24 \<le> \<bar>M\<bar>" by linarith
    then have mbig: "2 \<le> \<bar>m\<bar>" by (simp add: M_def abs_mult)
    have eneg: "e < 0"
    proof (rule ccontr)
      assume "\<not> e < 0"
      then have "\<bar>valof x\<bar> = real_of_int \<bar>m\<bar> * 2 ^ nat e"
        by (simp add: x abs_mult)
      moreover have "real_of_int \<bar>m\<bar> * 1 \<le> real_of_int \<bar>m\<bar> * 2 ^ nat e"
        by (intro mult_left_mono) simp_all
      moreover have "2 \<le> real_of_int \<bar>m\<bar>" using mbig by linarith
      ultimately show False using assms by linarith
    qed
    define n where "n = nat (- e)"
    have vx: "valof x = real_of_int m / 2 ^ n"
      using eneg by (simp add: x n_def)
    have "\<bar>real_of_int m\<bar> \<le> 2 ^ n"
      using assms by (simp add: vx abs_divide pos_divide_le_eq)
    then have mle: "\<bar>m\<bar> \<le> 2 ^ n"
      by (metis of_int_abs of_int_le_iff of_int_numeral of_int_power)
    have Mle: "\<bar>M\<bar> \<le> 32767 * 2 ^ n"
      using mle by (simp add: M_def abs_mult)
    also have "\<dots> < 2 ^ 15 * 2 ^ n" by simp
    finally have "\<bar>M\<bar> < 2 ^ (15 + n)" by (simp add: power_add)
    then have "bitlen \<bar>M\<bar> \<le> int (15 + n)"
      unfolding bitlen_le_iff_power by (simp only: nat_int) simp
    then have kn: "k \<le> int n - 9" by (simp add: k_def)
    define j where "j = n - nat k"
    have nj: "n = j + nat k" and j9: "9 \<le> j"
      using kn kpos by (simp_all add: j_def)
    have ek: "e + k = - int j"
      using kn kpos eneg by (simp add: j_def n_def)
    have jpos: "0 < j" using j9 by simp
    define R where "R = round_half_even M (nat k)"
    have tx: "times_32767 x = B32 R (e + k)"
      using kpos by (simp add: x round24_def k_def M_def R_def Let_def)
    have up: "M \<le> (32767 * 2 ^ j) * 2 ^ nat k"
      using Mle by (simp add: nj power_add)
    have lo: "(- 32767 * 2 ^ j) * 2 ^ nat k \<le> M"
      using Mle by (simp add: nj power_add)
    have Rup: "R \<le> 32767 * 2 ^ j"
      unfolding R_def using up by (rule round_half_even_le)
    have Rlo: "- 32767 * 2 ^ j \<le> R"
      unfolding R_def using lo by (rule round_half_even_ge)
    have "\<bar>R\<bar> \<le> 32767 * 2 ^ j" using Rup Rlo by linarith
    then have "real_of_int \<bar>R\<bar> \<le> 32767 * 2 ^ j"
      by (metis of_int_le_iff of_int_mult of_int_numeral of_int_power)
    then have "\<bar>real_of_int R\<bar> / 2 ^ j \<le> 32767"
      by (simp add: pos_divide_le_eq)
    moreover have "valof (times_32767 x) = real_of_int R / 2 ^ j"
      using jpos by (simp add: tx ek)
    ultimately show ?thesis by (simp add: abs_divide)
  qed
qed

lemma trunc_bounds:
  assumes "\<bar>v\<bar> \<le> 32767"
  shows "- 32767 \<le> trunc_toward_zero v \<and> trunc_toward_zero v \<le> 32767"
proof (cases "0 \<le> v")
  case True
  then have "trunc_toward_zero v = \<lfloor>v\<rfloor>"
    by (simp add: trunc_toward_zero_def)
  moreover have "0 \<le> \<lfloor>v\<rfloor>"
    using True by simp
  moreover have "\<lfloor>v\<rfloor> \<le> 32767"
    using assms by (simp add: floor_le_iff)
  ultimately show ?thesis by simp
next
  case False
  then have "trunc_toward_zero v = \<lceil>v\<rceil>"
    by (simp add: trunc_toward_zero_def)
  moreover have "\<lceil>v\<rceil> \<le> 0"
    using False by (simp add: ceiling_le_iff)
  moreover have "- 32767 \<le> \<lceil>v\<rceil>"
    using assms by (simp add: le_ceiling_iff)
  ultimately show ?thesis by simp
qed

lemma sint_astype_int16:
  assumes "\<bar>v\<bar> \<le> 32767"
  shows "sint (astype_int16 v) = trunc_toward_zero v"
proof -
  have "signed_take_bit 15 (trunc_toward_zero v) = trunc_toward_zero v"
    using trunc_bounds [OF assms] by (intro signed_take_bit_int_eq_self) simp_all
  then show ?thesis
    by (simp add: astype_int16_def sint_sbintrunc')
qed

text \<open>
  Claim C1, as the code has it: for every non-empty frame sequence of a running
  recording, \<open>stop\<close> writes the concatenated samples as 16-bit PCM, each multiplied by
  32767 in single precision and cut toward zero; a sample within \<open>[-1, 1]\<close> is stored as
  that integer, which lies between -32767 and 32767. Nothing clamps a sample outside
  that range.
\<close>

theorem stop_scales_and_truncates:
  assumes "is_recording r" and "frames r \<noteq> []"
    and "\<forall>x \<in> set (concat (frames r)). \<bar>valof x\<bar> \<le> 1"
  shows "snd (stop r True) =
           Inr (Some \<lparr>nchannels = channels r, sampwidth = 2, framerate = sample_rate r,
                      wav_data = tobytes (audio_int16 (frames r))\<rparr>) \<and>
         map sint (audio_int16 (frames r)) =
           map (\<lambda>x. trunc_toward_zero (valof (times_32767 x))) (concat (frames r)) \<and>
         (\<forall>v \<in> set (map sint (audio_int16 (frames r))). - 32767 \<le> v \<and> v \<le> 32767)"
proof -
  have written: "snd (stop r True) =
           Inr (Some \<lparr>nchannels = channels r, sampwidth = 2, framerate = sample_rate r,
                      wav_data = tobytes (audio_int16 (frames r))\<rparr>)"
    using assms(1,2) by (simp add: stop_def)
  have scaled: "\<forall>x \<in> set (concat (frames r)). \<bar>valof (times_32767 x)\<bar> \<le> 32767"
    using assms(3) times_32767_bound by blast
  have samples: "map sint (audio_int16 (frames r)) =
           map (\<lambda>x. trunc_toward_zero (valof (times_32767 x))) (concat (frames r))"
    unfolding audio_int16_def using scaled by (simp add: sint_astype_int16)
  have "\<forall>v \<in> set (map sint (audio_int16 (frames r))). - 32767 \<le> v \<and> v \<le> 32767"
    unfolding samples using scaled trunc_bounds by auto
  with written samples show ?thesis by blast
qed

theorem stop_scales_and_truncates_witness:
  "map sint (audio_int16 [[B32 1 (- 1), B32 (- 1) 0], [B32 1 0, B32 32769 (- 16)]]) =
     [16383, - 32767, 32767, 16384] \<and>
   snd (stop ((init_recorder example_tmp)
               \<lparr>is_recording := True,
                frames := [[B32 1 (- 1), B32 (- 1) 0], [B32 1 0, B32 32769 (- 16)]]\<rparr>) True) =
     Inr (Some \<lparr>nchannels = 1, sampwidth = 2, framerate = 16000,
                wav_data = tobytes (audio_int16
                  [[B32 1 (- 1), B32 (- 1) 0], [B32 1 0, B32 32769 (- 16)]])\<rparr>)"
proof -
  let ?r = "(init_recorder example_tmp)
               \<lparr>is_recording := True,
                frames := [[B32 1 (- 1), B32 (- 1) 0], [B32 1 0, B32 32769 (- 16)]]\<rparr>"
  have running: "is_recording ?r" and nonempty: "frames ?r \<noteq> []"
    by simp_all
  have inrange: "\<forall>x \<in> set (concat (frames ?r)). \<bar>valof x\<bar> \<le> 1"
    by simp
  have stored: "map (\<lambda>x. trunc_toward_zero (valof (times_32767 x))) (concat (frames ?r)) =
      [16383, - 32767, 32767, 16384]"
    by code_simp
  from stop_scales_and_truncates [OF running nonempty inrange] stored show ?thesis
    by (simp add: init_recorder_def)
qed

text \<open>
  Claim C1 as stated fails: the binary32 number next to 1.01 is 8472494 / 8388608; its
  product with 32767 rounds to 33094.668, is cut to 33094 and stored in 16 bits as
  -32442 (the bytes 0x46 0x81), not as 32767.
\<close>

theorem stop_wraps_over_full_scale:
  "snd (stop ((init_recorder example_tmp)
               \<lparr>is_recording := True, frames := [[B32 8472494 (- 23)]]\<rparr>) True) =
     Inr (Some \<lparr>nchannels = 1, sampwidth = 2, framerate = 16000, wav_data = [70, 129]\<rparr>) \<and>
   map sint (audio_int16 [[B32 8472494 (- 23)]]) = [- 32442] \<and>
   map sint (audio_int16 [[B32 8472494 (- 23)]]) \<noteq> [32767] \<and>
   is_binary32 (B32 8472494 (- 23)) \<and>
   \<bar>valof (B32 8472494 (- 23)) - 101 / 100\<bar> < 1 / 10000000"
proof -
  have bytes: "tobytes (audio_int16 [[B32 8472494 (- 23)]]) = [70, 129]"
    by code_simp
  have sample: "map sint (audio_int16 [[B32 8472494 (- 23)]]) = [- 32442]"
    by code_simp
  have written: "snd (stop ((init_recorder example_tmp)
               \<lparr>is_recording := True, frames := [[B32 8472494 (- 23)]]\<rparr>) True) =
     Inr (Some \<lparr>nchannels = 1, sampwidth = 2, framerate = 16000, wav_data = [70, 129]\<rparr>)"
    by (simp add: stop_def init_recorder_def bytes)
  have near: "is_binary32 (B32 8472494 (- 23)) \<and>
      \<bar>valof (B32 8472494 (- 23)) - 101 / 100\<bar> < 1 / 10000000"
    by simp
  from written sample near show ?thesis by simp
qed

section \<open>A start that fails\<close>

text \<open>
  Claim C2 on the code: when the device cannot be opened (or the stream cannot be
  started), \<open>_start_recording\<close> returns normally and the recorder's flag is false, but
  the flag \<open>_is_recording\<close> of the application stays true: the controller is left in
  the recording state, not idle.
\<close>

theorem failed_open_leaves_controller_recording:
  assumes "get_device_index dn (query_devices env) (microphone cfg) = Inr idx"
    and "device_open env idx \<noteq> Opened"
    and "\<not> is_recording (recorder a)"
  shows "\<not> is_recording (recorder (start_recording dn cfg env a)) \<and>
         app_is_recording (start_recording dn cfg env a)"
  using assms
  by (cases "device_open env idx") (simp_all add: start_recording_def start_def Let_def)

theorem failed_open_leaves_controller_recording_witness:
  "\<not> is_recording (recorder (start_recording ''Default'' example_cfg
        (example_env\<lparr>device_open := (\<lambda>d. OpenRaises)\<rparr>) (init_app example_tmp))) \<and>
   app_is_recording (start_recording ''Default'' example_cfg
        (example_env\<lparr>device_open := (\<lambda>d. OpenRaises)\<rparr>) (init_app example_tmp)) \<and>
   \<not> app_is_recording (init_app example_tmp)"
  using failed_open_leaves_controller_recording
    [of "''Default''" "example_env\<lparr>device_open := (\<lambda>d. OpenRaises)\<rparr>" example_cfg None
        "init_app example_tmp"]
  by (simp add: get_device_index_def example_cfg_def example_env_def init_app_def
      init_recorder_def)

section \<open>AI correction\<close>

text \<open>
  Claim C3: when AI is disabled or the API key is empty, whatever the other setting is,
  the post-processing step sends no request and returns the text it was given; the
  application and the world are unchanged.
\<close>

theorem ai_skipped_when_disabled_or_no_key:
  assumes "\<not> ai_enabled cfg \<or> ai_api_key cfg = []"
  shows "gpt_post_processing cfg env a w text = (a, w, text) \<and>
         net_calls (fst (snd (gpt_post_processing cfg env a w text))) = net_calls w \<and>
         snd (snd (gpt_post_processing cfg env a w text)) = text"
  using assms by (auto simp: gpt_post_processing_def strip_def)

theorem ai_skipped_when_disabled_or_no_key_witness:
  "gpt_post_processing (example_cfg\<lparr>ai_enabled := False\<rparr>) example_env
      (init_app example_tmp) example_world ''hello'' =
     (init_app example_tmp, example_world, ''hello'') \<and>
   gpt_post_processing (example_cfg\<lparr>ai_api_key := []\<rparr>) example_env
      (init_app example_tmp) example_world ''hello'' =
     (init_app example_tmp, example_world, ''hello'') \<and>
   snd (snd (gpt_post_processing example_cfg example_env
      (init_app example_tmp) example_world ''hello'')) = ''Hello.''"
  using ai_skipped_when_disabled_or_no_key
      [of "example_cfg\<lparr>ai_enabled := False\<rparr>" example_env "init_app example_tmp"
          example_world "''hello''"]
    ai_skipped_when_disabled_or_no_key
      [of "example_cfg\<lparr>ai_api_key := []\<rparr>" example_env "init_app example_tmp"
          example_world "''hello''"]
  by (simp add: example_cfg_def gpt_post_processing_def chat_request_def example_env_def
      init_app_def strip_def isspace_def)



section \<open>Replacement rules\<close>

lemma apply_replacements_append:
  "apply_replacements lib (rs1 @ rs2) t =
     (case apply_replacements lib rs1 t of
        Inl e \<Rightarrow> Inl e
      | Inr t' \<Rightarrow> apply_replacements lib rs2 t')"
proof (induction rs1 arbitrary: t)
  case Nil
  show ?case by simp
next
  case (Cons r rs1)
  show ?case
    by (simp add: Cons.IH Let_def split: sum.splits py_error.splits)
qed

text \<open>
  Claim C5: the rules are applied one after the other in list order, each on the text the
  rules before it produced (a chain of two lists is the second applied to the result of
  the first); the rules a to b, b to c turn the text a into c.
\<close>

theorem replacements_chain_in_order:
  "apply_replacements lib (rs1 @ rs2) t =
     (case apply_replacements lib rs1 t of
        Inl e \<Rightarrow> Inl e
      | Inr t' \<Rightarrow> apply_replacements lib rs2 t') \<and>
   apply_replacements lib
     [\<lparr>match = Some ''a'', replace = Some ''b'', ignore_case = Some True\<rparr>,
      \<lparr>match = Some ''b'', replace = Some ''c'', ignore_case = Some True\<rparr>] ''a'' = Inr ''c''"
proof
  show "apply_replacements lib (rs1 @ rs2) t =
     (case apply_replacements lib rs1 t of
        Inl e \<Rightarrow> Inl e
      | Inr t' \<Rightarrow> apply_replacements lib rs2 t')"
    by (rule apply_replacements_append)
  show "apply_replacements lib
     [\<lparr>match = Some ''a'', replace = Some ''b'', ignore_case = Some True\<rparr>,
      \<lparr>match = Some ''b'', replace = Some ''c'', ignore_case = Some True\<rparr>] ''a'' = Inr ''c''"
    by (simp add: get_or_def re_sub_def is_literal_def is_ascii_def special_chars_def backslash_def
        lower_def Let_def)
qed

theorem replacements_chain_in_order_witness:
  "apply_replacements (re_library example_env)
     ([\<lparr>match = Some ''cat'', replace = Some ''dog'', ignore_case = Some True\<rparr>] @
      [\<lparr>match = Some ''do'', replace = Some ''fro'', ignore_case = Some True\<rparr>])
     ''a cat'' = Inr ''a frog'' \<and>
   apply_replacements (re_library example_env)
     [\<lparr>match = Some ''a'', replace = Some ''b'', ignore_case = Some True\<rparr>,
      \<lparr>match = Some ''b'', replace = Some ''c'', ignore_case = Some True\<rparr>] ''a'' = Inr ''c''"
  using replacements_chain_in_order
    [of "re_library example_env"
        "[\<lparr>match = Some ''cat'', replace = Some ''dog'', ignore_case = Some True\<rparr>]"
        "[\<lparr>match = Some ''do'', replace = Some ''fro'', ignore_case = Some True\<rparr>]"
        "''a cat''"]
  by (simp add: get_or_def re_sub_def is_literal_def is_ascii_def special_chars_def backslash_def
        lower_def Let_def)

text \<open>
  Claim C10: a rule whose pattern is the empty string (or is absent) leaves the text as
  it is, and the rules after it are applied as if it were not in the list.
\<close>

theorem empty_match_rule_is_skipped:
  assumes "get_or (match r) [] = []"
  shows "apply_replacements lib (rs1 @ r # rs2) t = apply_replacements lib (rs1 @ rs2) t"
proof -
  have skip: "apply_replacements lib (r # rs2) u = apply_replacements lib rs2 u" for u
    using assms by (simp add: Let_def)
  show ?thesis
    unfolding apply_replacements_append
    by (cases "apply_replacements lib rs1 t") (simp_all only: skip sum.case)
qed

theorem empty_match_rule_is_skipped_witness:
  "apply_replacements (re_library example_env)
     [\<lparr>match = Some ''a'', replace = Some ''b'', ignore_case = Some True\<rparr>,
      \<lparr>match = Some [], replace = Some ''zzz'', ignore_case = Some True\<rparr>,
      \<lparr>match = Some ''b'', replace = Some ''c'', ignore_case = Some True\<rparr>] ''a cab'' =
   Inr ''c ccc'' \<and>
   apply_replacements (re_library example_env)
     [\<lparr>match = Some ''a'', replace = Some ''b'', ignore_case = Some True\<rparr>,
      \<lparr>match = Some ''b'', replace = Some ''c'', ignore_case = Some True\<rparr>] ''a cab'' =
   Inr ''c ccc''"
  using empty_match_rule_is_skipped
    [of "\<lparr>match = Some [], replace = Some ''zzz'', ignore_case = Some True\<rparr>"
        "re_library example_env"
        "[\<lparr>match = Some ''a'', replace = Some ''b'', ignore_case = Some True\<rparr>]"
        "[\<lparr>match = Some ''b'', replace = Some ''c'', ignore_case = Some True\<rparr>]" "''a cab''"]
  by (simp add: get_or_def re_sub_def is_literal_def is_ascii_def special_chars_def backslash_def
        lower_def Let_def)

lemma apply_replacements_flag:
  "apply_replacements lib (map (\<lambda>r. r\<lparr>ignore_case := f r\<rparr>) rs) t =
     apply_replacements lib rs t"
  by (induction rs arbitrary: t) (simp_all add: Let_def split: sum.splits py_error.splits)

lemma apply_replacements_library:
  assumes "\<And>p r u. lib True p r u = lib' True p r u"
  shows "apply_replacements lib rs t = apply_replacements lib' rs t"
proof (induction rs arbitrary: t)
  case Nil
  show ?case by simp
next
  case (Cons rep reps)
  have "re_sub lib m rp t True = re_sub lib' m rp t True" for m rp
    by (simp add: re_sub_def assms)
  then show ?case
    by (simp add: Cons.IH Let_def split: sum.splits py_error.splits)
qed

lemma prefix_match_same_case:
  "map lower t = map lower m \<Longrightarrow> prefix_match True m t"
  by (induction m t rule: list_induct2') auto

lemma sub_literal_whole:
  assumes "map lower t = map lower m" and "m \<noteq> []"
  shows "sub_literal True m rp t = rp"
proof -
  have len: "length t = length m"
    using assms(1) by (metis length_map)
  with assms(2) obtain c cs where t: "t = c # cs"
    by (cases t) auto
  have "prefix_match True m (c # cs)"
    using assms(1) t prefix_match_same_case by blast
  moreover have "drop (length m) (c # cs) = []"
    using len t by simp
  ultimately show ?thesis
    using assms(2) t by simp
qed

text \<open>
  Claim C6, as the code has it: \<open>re.sub\<close> is called with \<open>re.IGNORECASE\<close> for every
  rule, whether or not the flag of the rule is set. The flag is never read: changing the
  flags of the rules does not change the result, and the result depends on the library
  only through its answers to calls with the ignore-case flag. So a rule without the
  flag whose pattern is plain ASCII text replaces a text that differs from the pattern
  only in the case of its letters.
\<close>

theorem every_rule_ignores_case:
  "apply_replacements lib (map (\<lambda>r. r\<lparr>ignore_case := f r\<rparr>) rs) t =
     apply_replacements lib rs t \<and>
   ((\<forall>p r u. lib True p r u = lib' True p r u) \<longrightarrow>
    apply_replacements lib rs t = apply_replacements lib' rs t) \<and>
   (m \<noteq> [] \<and> is_literal m \<and> is_ascii m \<and> is_ascii u \<and> backslash \<notin> set rp \<and>
    map lower u = map lower m \<longrightarrow>
    apply_replacements lib [\<lparr>match = Some m, replace = Some rp, ignore_case = flag\<rparr>] u =
      Inr rp)"
proof (intro conjI impI)
  show "apply_replacements lib (map (\<lambda>r. r\<lparr>ignore_case := f r\<rparr>) rs) t =
          apply_replacements lib rs t"
    by (rule apply_replacements_flag)
next
  assume "\<forall>p r u. lib True p r u = lib' True p r u"
  then show "apply_replacements lib rs t = apply_replacements lib' rs t"
    by (intro apply_replacements_library) blast
next
  assume h: "m \<noteq> [] \<and> is_literal m \<and> is_ascii m \<and> is_ascii u \<and> backslash \<notin> set rp \<and>
    map lower u = map lower m"
  then have "re_sub lib m rp u True = Inr (sub_literal True m rp u)"
    by (simp add: re_sub_def)
  also have "sub_literal True m rp u = rp"
    using h by (simp add: sub_literal_whole)
  finally show
    "apply_replacements lib [\<lparr>match = Some m, replace = Some rp, ignore_case = flag\<rparr>] u =
       Inr rp"
    using h by (simp add: get_or_def)
qed

theorem every_rule_ignores_case_witness:
  "apply_replacements (re_library example_env)
      [\<lparr>match = Some ''hello'', replace = Some ''bye'', ignore_case = Some False\<rparr>] ''HeLLo'' =
     Inr ''bye'' \<and>
   apply_replacements (\<lambda>ic p r u. if ic then Inr ''asked with the flag'' else Inr u)
      [\<lparr>match = Some ''h.llo'', replace = Some ''bye'', ignore_case = Some False\<rparr>] ''HeLLo'' =
     Inr ''asked with the flag''"
proof -
  have plain: "''hello'' \<noteq> [] \<and> is_literal ''hello'' \<and> is_ascii ''hello'' \<and>
      is_ascii ''HeLLo'' \<and> backslash \<notin> set ''bye'' \<and> map lower ''HeLLo'' = map lower ''hello''"
    by code_simp
  have agree: "\<forall>p r u. (\<lambda>ic p r u. Inr ''asked with the flag'') True p r u =
      (\<lambda>ic p r u. if ic then Inr ''asked with the flag'' else Inr u) True p r u"
    by simp
  have direct: "apply_replacements (\<lambda>ic p r u. Inr ''asked with the flag'')
      [\<lparr>match = Some ''h.llo'', replace = Some ''bye'', ignore_case = Some False\<rparr>] ''HeLLo'' =
     Inr ''asked with the flag''"
    by (simp add: get_or_def re_sub_def is_literal_def special_chars_def)
  have first: "apply_replacements (re_library example_env)
      [\<lparr>match = Some ''hello'', replace = Some ''bye'', ignore_case = Some False\<rparr>] ''HeLLo'' =
     Inr ''bye''"
    using every_rule_ignores_case
      [of "re_library example_env" "\<lambda>r. None" "[]" "[]" "re_library example_env"
          "''hello''" "''HeLLo''" "''bye''" "Some False"]
      plain
    by blast
  have second: "apply_replacements (\<lambda>ic p r u. Inr ''asked with the flag'')
      [\<lparr>match = Some ''h.llo'', replace = Some ''bye'', ignore_case = Some False\<rparr>] ''HeLLo'' =
    apply_replacements (\<lambda>ic p r u. if ic then Inr ''asked with the flag'' else Inr u)
      [\<lparr>match = Some ''h.llo'', replace = Some ''bye'', ignore_case = Some False\<rparr>] ''HeLLo''"
    using every_rule_ignores_case
      [of "\<lambda>ic p r u. Inr ''asked with the flag''" "\<lambda>r. None"
          "[\<lparr>match = Some ''h.llo'', replace = Some ''bye'', ignore_case = Some False\<rparr>]"
          "''HeLLo''" "\<lambda>ic p r u. if ic then Inr ''asked with the flag'' else Inr u"]
      agree
    by blast
  from first second direct show ?thesis by simp
qed

text \<open>
  Claim C6 as stated fails: a rule whose flag is false, or absent, still matches the
  capital letter; a case-sensitive match would leave the text A as it is.
\<close>

theorem flag_unset_still_ignores_case:
  "apply_replacements (re_library example_env)
     [\<lparr>match = Some ''a'', replace = Some ''b'', ignore_case = Some False\<rparr>] ''A'' = Inr ''b'' \<and>
   apply_replacements (re_library example_env)
     [\<lparr>match = Some ''a'', replace = Some ''b'', ignore_case = None\<rparr>] ''A'' = Inr ''b'' \<and>
   apply_replacements (re_library example_env)
     [\<lparr>match = Some ''a'', replace = Some ''b'', ignore_case = Some False\<rparr>] ''A'' \<noteq> Inr ''A''"
  by code_simp

section \<open>Injection\<close>

lemma clipboard_cleanup_audio_file:
  "clipboard (cleanup_audio_file cfg env w f) = clipboard w"
  by (simp add: cleanup_audio_file_def cleanup_old_recordings_def Let_def)

text \<open>
  Claim C9: after an injection in which nothing raised, the clipboard holds the injected
  text, which is what the key press pasted; the clipboard read before is not put back,
  neither by the paste block nor by the cleanup that ends the job.
\<close>

theorem injection_replaces_clipboard:
  assumes "text \<noteq> []" and "auto_paste cfg"
    and "paste_result cfg env a w text = (w', None)"
  shows "clipboard w' = text \<and> pasted w' = pasted w @ [(foreground w', text)] \<and>
         clipboard (cleanup_audio_file cfg env w' f) = text"
proof -
  have "clipboard w' = text \<and> pasted w' = pasted w @ [(foreground w', text)]"
    using assms by (auto simp: paste_result_def Let_def split: if_splits option.splits)
  then show ?thesis
    by (simp add: clipboard_cleanup_audio_file)
qed

theorem injection_replaces_clipboard_witness:
  "paste_result example_cfg example_env ((init_app example_tmp)\<lparr>prev_hwnd := Some 42\<rparr>)
      example_world ''Hello.'' =
     (example_world\<lparr>clipboard := ''Hello.'', foreground := 42, pasted := [(42, ''Hello.'')]\<rparr>,
      None) \<and>
   clipboard example_world = ''old'' \<and>
   clipboard (cleanup_audio_file example_cfg example_env
      (example_world\<lparr>clipboard := ''Hello.'', foreground := 42, pasted := [(42, ''Hello.'')]\<rparr>)
      example_tmp) = ''Hello.''"
  using injection_replaces_clipboard
      [of "''Hello.''" example_cfg example_env
          "(init_app example_tmp)\<lparr>prev_hwnd := Some 42\<rparr>" example_world
          "example_world\<lparr>clipboard := ''Hello.'', foreground := 42,
                          pasted := [(42, ''Hello.'')]\<rparr>" example_tmp]
  by (simp add: paste_result_def example_cfg_def example_env_def example_world_def
      init_app_def)

section \<open>Retention\<close>

lemma getmtime_os_remove:
  "getmtime (os_remove f fs) p = (if p = f then None else getmtime fs p)"
  unfolding getmtime_def os_remove_def
  by (induction fs) auto

lemma getmtime_sweep:
  "getmtime (sweep env cutoff ps fs) p =
     (if p \<in> set ps \<and> \<not> getmtime_raises env p \<and> \<not> remove_raises env p \<and>
         (\<exists>m. getmtime fs p = Some m \<and> m < cutoff)
      then None else getmtime fs p)"
proof (induction ps arbitrary: fs)
  case Nil
  show ?case by simp
next
  case (Cons f rest)
  show ?case
  proof (cases "\<not> getmtime_raises env f \<and> \<not> remove_raises env f \<and>
                (\<exists>m. getmtime fs f = Some m \<and> m < cutoff)")
    case True
    then have "sweep env cutoff (f # rest) fs = sweep env cutoff rest (os_remove f fs)"
      by auto
    then show ?thesis
      using True by (auto simp: Cons.IH getmtime_os_remove)
  next
    case False
    then have "sweep env cutoff (f # rest) fs = sweep env cutoff rest fs"
      by (auto split: option.splits)
    then show ?thesis
      using False by (auto simp: Cons.IH)
  qed
qed

lemma set_glob_wav:
  "\<not> has_magic d \<Longrightarrow>
   set (glob_wav env d fs) = {p \<in> fst ` set fs. fst p = d \<and> fnmatch_wav (normcase env) (snd p)}"
  by (auto simp: glob_wav_def)

lemma getmtime_Some_listed: "getmtime fs p = Some m \<Longrightarrow> p \<in> fst ` set fs"
  unfolding getmtime_def by (metis map_of_SomeD fst_conv image_eqI)

lemma files_transcribe_body: "files (snd (transcribe_body cfg env (a, w) f)) = files w"
proof -
  have gpt: "files (fst (snd (gpt_post_processing cfg env a' w t))) = files w" for a' t
    by (simp add: gpt_post_processing_def chat_request_def Let_def
        split: option.splits chat_outcome.splits)
  have paste: "files (fst (paste_result cfg env a' w' t)) = files w'" for a' w' t
    by (simp add: paste_result_def Let_def split: option.splits)
  show ?thesis
    by (simp add: transcribe_body_def Let_def gpt paste split: sum.splits)
qed

text \<open>
  Claim C4, as the code has it, path by path. For a positive number of days and a
  recordings path without the characters \<open>*\<close>, \<open>?\<close>, \<open>[\<close>, the sweep removes a file
  exactly when the path is a non-empty existing directory, the file is a \<open>*.wav\<close> file of
  it modified before now minus days times 86400 seconds, and neither \<open>getmtime\<close> nor
  \<open>os.remove\<close> raises for it; every other file is kept as it is. For zero or fewer days
  the sweep changes nothing, and the job ends by removing its working file, which stays
  only when \<open>os.remove\<close> raises.
\<close>

theorem retention_policy:
  "(0 < recording_retention_days cfg \<and> \<not> has_magic (save_recordings_path cfg) \<longrightarrow>
      getmtime (files (cleanup_old_recordings cfg env w)) p =
        (if save_recordings_path cfg \<noteq> [] \<and> save_recordings_path cfg \<in> set (dirs w) \<and>
            fst p = save_recordings_path cfg \<and> fnmatch_wav (normcase env) (snd p) \<and>
            \<not> getmtime_raises env p \<and> \<not> remove_raises env p \<and>
            (\<exists>m. getmtime (files w) p = Some m \<and>
                 m < time_now env - real_of_int (recording_retention_days cfg) * 86400)
         then None else getmtime (files w) p)) \<and>
   (recording_retention_days cfg \<le> 0 \<longrightarrow>
      cleanup_old_recordings cfg env w = w \<and>
      getmtime (files (snd (transcribe cfg env (a, w) audio_file))) p =
        (if p = audio_file \<and> \<not> remove_raises env audio_file then None
         else getmtime (files w) p))"
proof (intro conjI impI)
  assume h: "0 < recording_retention_days cfg \<and> \<not> has_magic (save_recordings_path cfg)"
  show "getmtime (files (cleanup_old_recordings cfg env w)) p =
        (if save_recordings_path cfg \<noteq> [] \<and> save_recordings_path cfg \<in> set (dirs w) \<and>
            fst p = save_recordings_path cfg \<and> fnmatch_wav (normcase env) (snd p) \<and>
            \<not> getmtime_raises env p \<and> \<not> remove_raises env p \<and>
            (\<exists>m. getmtime (files w) p = Some m \<and>
                 m < time_now env - real_of_int (recording_retention_days cfg) * 86400)
         then None else getmtime (files w) p)"
  proof (cases "save_recordings_path cfg \<noteq> [] \<and> save_recordings_path cfg \<in> set (dirs w)")
    case False
    then have "cleanup_old_recordings cfg env w = w"
      by (auto simp: cleanup_old_recordings_def Let_def)
    with False show ?thesis by auto
  next
    case True
    with h have "files (cleanup_old_recordings cfg env w) =
        sweep env (time_now env - real_of_int (recording_retention_days cfg) * 86400)
          (glob_wav env (save_recordings_path cfg) (files w)) (files w)"
      by (simp add: cleanup_old_recordings_def Let_def)
    then show ?thesis
      using h True by (auto simp: getmtime_sweep set_glob_wav dest: getmtime_Some_listed)
  qed
next
  assume "recording_retention_days cfg \<le> 0"
  then show "cleanup_old_recordings cfg env w = w"
    by (simp add: cleanup_old_recordings_def)
next
  assume "recording_retention_days cfg \<le> 0"
  then show "getmtime (files (snd (transcribe cfg env (a, w) audio_file))) p =
        (if p = audio_file \<and> \<not> remove_raises env audio_file then None
         else getmtime (files w) p)"
    by (simp add: transcribe_def cleanup_audio_file_def Let_def getmtime_os_remove
        files_transcribe_body)
qed

theorem retention_policy_witness:
  "files (cleanup_old_recordings (example_cfg\<lparr>recording_retention_days := 7\<rparr>)
            example_env example_world) =
     [((''rec'', ''b.wav''), 999000), ((''rec'', ''notes.txt''), 100),
      ((''rec'', ''c.wav''), 395200), ((''tmp'', ''voice_assistant_temp.wav''), 999990)] \<and>
   getmtime (files (cleanup_old_recordings (example_cfg\<lparr>recording_retention_days := 7\<rparr>)
            example_env example_world)) (''rec'', ''a.wav'') = None \<and>
   getmtime (files (cleanup_old_recordings (example_cfg\<lparr>recording_retention_days := 7\<rparr>)
            example_env example_world)) (''rec'', ''c.wav'') = Some 395200 \<and>
   cleanup_old_recordings example_cfg example_env example_world = example_world \<and>
   getmtime (files (snd (transcribe example_cfg example_env
            (init_app example_tmp, example_world) example_tmp))) example_tmp = None"
proof -
  let ?cfg7 = "example_cfg\<lparr>recording_retention_days := 7\<rparr>"
  have pos: "0 < recording_retention_days ?cfg7 \<and> \<not> has_magic (save_recordings_path ?cfg7)"
    by (simp add: example_cfg_def has_magic_def)
  have off: "recording_retention_days example_cfg \<le> 0"
    and ok: "\<not> remove_raises example_env example_tmp"
    by (simp_all add: example_cfg_def example_env_def)
  have listing: "files (cleanup_old_recordings ?cfg7 example_env example_world) =
     [((''rec'', ''b.wav''), 999000), ((''rec'', ''notes.txt''), 100),
      ((''rec'', ''c.wav''), 395200), ((''tmp'', ''voice_assistant_temp.wav''), 999990)]"
    by code_simp
  have old: "save_recordings_path ?cfg7 \<noteq> [] \<and>
      save_recordings_path ?cfg7 \<in> set (dirs example_world) \<and>
      fst (''rec'', ''a.wav'') = save_recordings_path ?cfg7 \<and>
      fnmatch_wav (normcase example_env) (snd (''rec'', ''a.wav'')) \<and>
      \<not> getmtime_raises example_env (''rec'', ''a.wav'') \<and>
      \<not> remove_raises example_env (''rec'', ''a.wav'') \<and>
      (\<exists>m. getmtime (files example_world) (''rec'', ''a.wav'') = Some m \<and>
           m < time_now example_env - real_of_int (recording_retention_days ?cfg7) * 86400)"
    by (simp add: example_cfg_def example_world_def example_env_def fnmatch_wav_def
        getmtime_def lower_def)
  have edge: "\<not> (\<exists>m. getmtime (files example_world) (''rec'', ''c.wav'') = Some m \<and>
           m < time_now example_env - real_of_int (recording_retention_days ?cfg7) * 86400)"
    and kept: "getmtime (files example_world) (''rec'', ''c.wav'') = Some 395200"
    by (simp_all add: example_cfg_def example_world_def example_env_def getmtime_def)
  have a: "getmtime (files (cleanup_old_recordings ?cfg7 example_env example_world))
             (''rec'', ''a.wav'') = None"
    using retention_policy
      [where cfg = ?cfg7 and w = example_world and env = example_env and
         p = "(''rec'', ''a.wav'')", THEN conjunct1, THEN mp, OF pos]
      old
    by (simp only: if_True simp_thms)
  have c: "getmtime (files (cleanup_old_recordings ?cfg7 example_env example_world))
             (''rec'', ''c.wav'') = Some 395200"
    using retention_policy
      [where cfg = ?cfg7 and w = example_world and env = example_env and
         p = "(''rec'', ''c.wav'')", THEN conjunct1, THEN mp, OF pos]
      edge kept
    by (simp only: if_False simp_thms)
  have z: "cleanup_old_recordings example_cfg example_env example_world = example_world \<and>
      getmtime (files (snd (transcribe example_cfg example_env
            (init_app example_tmp, example_world) example_tmp))) example_tmp = None"
    using retention_policy
      [where cfg = example_cfg and w = example_world and env = example_env and
         p = example_tmp and audio_file = example_tmp and a = "init_app example_tmp",
       THEN conjunct2, THEN mp, OF off]
      ok
    by (simp only: if_True simp_thms)
  from listing a c z show ?thesis by blast
qed

text \<open>
  Claim C4 as stated fails where the operating system refuses a removal: with seven days
  of retention, a recording older than the cut-off whose \<open>os.remove\<close> raises stays in
  the directory; with no retention, the working file stays when its removal raises.
\<close>

theorem locked_file_survives_cleanup:
  "getmtime (files (cleanup_old_recordings (example_cfg\<lparr>recording_retention_days := 7\<rparr>)
       (example_env\<lparr>remove_raises := (\<lambda>p. True)\<rparr>) example_world)) (''rec'', ''a.wav'') =
     Some 100 \<and>
   (100 :: real) < time_now example_env - 7 * 86400 \<and>
   getmtime (files (snd (transcribe example_cfg (example_env\<lparr>remove_raises := (\<lambda>p. True)\<rparr>)
       (init_app example_tmp, example_world) example_tmp))) example_tmp = Some 999990"
  by code_simp

section \<open>Pipeline jobs\<close>

text \<open>
  Claim C8, as the code has it: a stop that yields an audio file starts a job for it at
  once, next to whatever jobs are running; nothing waits for them.
\<close>

theorem each_stop_starts_its_own_job:
  assumes "is_recording (recorder a)" and "frames (recorder a) \<noteq> []" and "wave_ok env"
    and "temp_file (recorder a) \<noteq> ([], [])"
  shows "running_jobs (fst (stop_recording env (a, w))) =
           running_jobs a @ [temp_file (recorder a)]"
  using assms by (auto simp: stop_recording_def stop_def Let_def prod_eq_iff)

theorem each_stop_starts_its_own_job_witness:
  "running_jobs (fst (stop_recording example_env
       ((init_app example_tmp)
          \<lparr>recorder := (init_recorder example_tmp)\<lparr>is_recording := True, frames := [[B32 1 (- 1)]]\<rparr>,
           running_jobs := [example_tmp]\<rparr>, example_world))) = [example_tmp, example_tmp]"
  using each_stop_starts_its_own_job
    [of "(init_app example_tmp)
          \<lparr>recorder := (init_recorder example_tmp)\<lparr>is_recording := True, frames := [[B32 1 (- 1)]]\<rparr>,
           running_jobs := [example_tmp]\<rparr>" example_env example_world]
  by (simp add: init_app_def init_recorder_def example_env_def example_tmp_def)

text \<open>
  Claim C8 as stated fails: two recordings stopped before any job has ended leave two
  jobs in flight.
\<close>

theorem two_jobs_in_flight:
  "running_jobs (fst (run ''Default'' example_cfg example_env
       [Toggle, Block [B32 1 (- 1)], Toggle, Toggle, Block [B32 1 (- 2)], Toggle]
       (init_app example_tmp, example_world))) = [example_tmp, example_tmp] \<and>
   \<not> length (running_jobs (fst (run ''Default'' example_cfg example_env
       [Toggle, Block [B32 1 (- 1)], Toggle, Toggle, Block [B32 1 (- 2)], Toggle]
       (init_app example_tmp, example_world)))) \<le> 1"
  by (simp add: toggle_recording_def start_recording_def stop_recording_def start_def stop_def
      audio_block_def callback_def init_app_def init_recorder_def example_env_def
      example_cfg_def example_tmp_def get_device_index_def Let_def)

end
